theory Spec2Isabelle
  imports Main "HOL-Library.Sublist"
begin

section \<open>The command-line entry point of sgpt (\<^verbatim>\<open>sgpt/app.py\<close>)\<close>

text \<open>
  \<^verbatim>\<open>main\<close> is the only function of \<^verbatim>\<open>app.py\<close> with a body. It reads the
  terminal, calls collaborators that live in other modules (roles, handlers, utilities)
  and raises click exceptions. The model makes all of that explicit:
  \<^item> the exceptions are values of \<open>error\<close>, the ways the body ends values of \<open>outcome\<close>;
  \<^item> every call of a collaborator is logged, in program order, as an \<open>event\<close> carrying
    the arguments of the call;
  \<^item> what a collaborator gives back is read from the environment \<open>env\<close>;
  \<^item> standard input is the string of characters still unread.
\<close>

subsection \<open>Exceptions and outcomes\<close>

datatype error =
    BadArgumentUsage string
  | MissingParameter string string
  | Abort
  | UnboundLocalError string
  | UnknownRoleError string
  | HandlerError string

text \<open>
  \<open>Returned\<close>: the body ran to its end; \<open>Exited\<close>: the builtin \<^verbatim>\<open>exit()\<close> was
  called; \<open>Raised e\<close>: the exception \<open>e\<close> left the body.
\<close>

datatype outcome = Returned | Exited | Raised error

subsection \<open>Command-line parameters\<close>

text \<open>
  The parameters of \<^verbatim>\<open>main\<close> that its body reads. \<^verbatim>\<open>prompt\<close> and \<^verbatim>\<open>role\<close> default
  to \<^verbatim>\<open>None\<close>. The floating-point options are only handed on, so their type is a
  parameter. The options served by typer callbacks (\<^verbatim>\<open>list_chats\<close>, \<^verbatim>\<open>create_role\<close>,
  \<^verbatim>\<open>show_role\<close>, \<^verbatim>\<open>list_roles\<close>, \<^verbatim>\<open>install_integration\<close>) are never read by the body.
\<close>

record 'f args =
  prompt :: "string option"
  model :: string
  temperature :: 'f
  top_probability :: 'f
  shell :: bool
  describe_shell :: bool
  code :: bool
  editor :: bool
  cache :: bool
  chat_id :: string
  repl :: bool
  print_chat :: bool
  delete_chat :: bool
  role :: "string option"

text \<open>The keyword arguments every handler call receives.\<close>

record 'f kwargs =
  kw_model :: string
  kw_temperature :: 'f
  kw_top_probability :: 'f
  kw_caching :: bool

definition kwargs_of :: "'f args \<Rightarrow> 'f kwargs" where
  "kwargs_of a =
     \<lparr>kw_model = model a, kw_temperature = temperature a,
      kw_top_probability = top_probability a, kw_caching = cache a\<rparr>"

subsection \<open>Roles\<close>

datatype DefaultRoles = DEFAULT | SHELL | DESCRIBE_SHELL | CODE

text \<open>
  Modelled from the spec: \<^verbatim>\<open>DefaultRoles.check_get\<close> (module \<^verbatim>\<open>sgpt.role\<close>) is
  called by \<^verbatim>\<open>main\<close> but defined outside \<^verbatim>\<open>app.py\<close>. Section 4.2 of the
  specification: the role is derived from the flags, the default assistant role if none
  is set.
\<close>

definition check_get :: "bool \<Rightarrow> bool \<Rightarrow> bool \<Rightarrow> DefaultRoles" where
  "check_get sh ds cd =
     (if sh then SHELL else if ds then DESCRIBE_SHELL else if cd then CODE else DEFAULT)"

text \<open>
  Modelled from the spec: \<^verbatim>\<open>SystemRole.get\<close> (module \<^verbatim>\<open>sgpt.role\<close>) is called by
  \<^verbatim>\<open>main\<close> but defined outside \<^verbatim>\<open>app.py\<close>. Section 4.2 of the specification:
  an explicit role is looked up by name, failing with \<^verbatim>\<open>UnknownRoleError\<close> if absent.
  The stored roles are a map from names to role definitions.
\<close>

definition SystemRole_get :: "(string \<rightharpoonup> 'r) \<Rightarrow> string \<Rightarrow> error + 'r" where
  "SystemRole_get storage name =
     (case storage name of None \<Rightarrow> Inl (UnknownRoleError name) | Some r \<Rightarrow> Inr r)"

subsection \<open>Events and the environment\<close>

datatype ('f, 'r) event =
    StdinRead string
  | GetEditedPrompt
  | CheckGet bool bool bool
  | SystemRoleGet string
  | ReplHandle string 'r "string option" "'f kwargs"
  | ShowMessages string
  | DeleteChat string 'r
  | ChatHandle string 'r string "'f kwargs"
  | Prompt string string
  | InvalidChoice string
  | CopyToClipboard string
  | Print string
  | RunCommand string
  | DefaultHandle 'r string "'f kwargs"

text \<open>
  The environment of one invocation: the terminal, the configuration, and what each
  collaborator answers. \<open>stdin\<close> is everything standard input will deliver (typed or
  piped). Role lookup, the editor and the three handlers may raise; the REPL handler
  also reads standard input and gives back what it left unread. \<^verbatim>\<open>run_command\<close>,
  \<^verbatim>\<open>copy_to_clipboard\<close>, \<^verbatim>\<open>print\<close>, \<^verbatim>\<open>show_messages_callback\<close> and \<^verbatim>\<open>delete_chat\<close> are
  logged and taken to return.
\<close>

record ('f, 'r) env =
  isatty :: bool
  stdin :: string
  default_execute_shell_cmd :: string
  get_edited_prompt :: "error + string"
  role_storage :: "string \<rightharpoonup> 'r"
  get_role :: "DefaultRoles \<Rightarrow> 'r"
  repl_handle :: "string \<Rightarrow> 'r \<Rightarrow> string option \<Rightarrow> 'f kwargs \<Rightarrow> string \<Rightarrow> (error + unit) \<times> string"
  chat_handle :: "string \<Rightarrow> 'r \<Rightarrow> string \<Rightarrow> 'f kwargs \<Rightarrow> error + string"
  describe_handle :: "'r \<Rightarrow> string \<Rightarrow> 'f kwargs \<Rightarrow> error + string"

definition after :: "'e list \<Rightarrow> 'e list \<times> 'o \<Rightarrow> 'e list \<times> 'o" where
  "after evs r = (evs @ fst r, snd r)"

subsection \<open>Python strings\<close>

definition newline :: char where
  "newline = CHR 0x0A"

text \<open>\<^verbatim>\<open>prompt or ''\<close>: the prompt if it is a non-empty string, else the empty string.\<close>

definition or_empty :: "string option \<Rightarrow> string" where
  "or_empty p = (case p of None \<Rightarrow> [] | Some s \<Rightarrow> s)"

text \<open>\<^verbatim>\<open>not prompt\<close>, \<^verbatim>\<open>not role\<close>: \<^verbatim>\<open>None\<close> and the empty string are both falsy.\<close>

definition falsy :: "string option \<Rightarrow> bool" where
  "falsy p = (case p of None \<Rightarrow> True | Some s \<Rightarrow> s = [])"

text \<open>
  \<^verbatim>\<open>option in ("c")\<close>: the parentheses make no tuple, so this is the substring test
  of \<^verbatim>\<open>option\<close> in the string \<^verbatim>\<open>"c"\<close>.
\<close>

definition in_str :: "string \<Rightarrow> string \<Rightarrow> bool" where
  "in_str sub s = sublist sub s"

text \<open>\<^verbatim>\<open>str.lower\<close> on ASCII: the capital letters go to the small ones.\<close>

definition lower_char :: "char \<Rightarrow> char" where
  "lower_char c =
     (case map_of (zip ''ABCDEFGHIJKLMNOPQRSTUVWXYZ'' ''abcdefghijklmnopqrstuvwxyz'') c of
        None \<Rightarrow> c
      | Some l \<Rightarrow> l)"

definition lower :: "string \<Rightarrow> string" where
  "lower s = map lower_char s"

subsection \<open>Prompting on the terminal\<close>

text \<open>
  \<^verbatim>\<open>input()\<close>: the next line of standard input without its newline, and the rest;
  nothing at end of input.
\<close>

definition input_line :: "string \<Rightarrow> (string \<times> string) option" where
  "input_line s =
     (if s = [] then None
      else Some (takeWhile (\<lambda>c. c \<noteq> newline) s, drop 1 (dropWhile (\<lambda>c. c \<noteq> newline) s)))"

text \<open>
  \<^verbatim>\<open>click.Choice(choices, case_sensitive=False)\<close>: the declared choice equal to the
  value up to letter case.
\<close>

definition Choice_convert :: "string list \<Rightarrow> string \<Rightarrow> string option" where
  "Choice_convert choices v = find (\<lambda>c. lower c = lower v) choices"

lemma input_line_shorter:
  "input_line s = Some (l, rest) \<Longrightarrow> length rest < length s"
proof -
  assume a: "input_line s = Some (l, rest)"
  then have ne: "s \<noteq> []" and r: "rest = drop 1 (dropWhile (\<lambda>c. c \<noteq> newline) s)"
    by (auto simp: input_line_def split: if_splits)
  have "length (dropWhile (\<lambda>c. c \<noteq> newline) s) \<le> length s"
    by (rule length_dropWhile_le)
  with ne r show ?thesis
    by (cases s) auto
qed

text \<open>
  \<^verbatim>\<open>typer.prompt(text, type=Choice(choices, case_sensitive=False), default=dflt)\<close>:
  show the text and read a line; an empty line stands for the default; a value that is
  no choice is reported and the prompt is shown again; end of input raises \<^verbatim>\<open>Abort\<close>.
  The result is the events, the chosen option or the exception, and the unread input.
\<close>

function typer_prompt ::
  "string \<Rightarrow> string list \<Rightarrow> string \<Rightarrow> string \<Rightarrow> ('f, 'r) event list \<times> (error + string) \<times> string"
where
  "typer_prompt text choices dflt inp =
     (case input_line inp of
        None \<Rightarrow> ([Prompt text dflt], Inl Abort, inp)
      | Some (line, rest) \<Rightarrow>
          (let v = (if line = [] then dflt else line) in
           case Choice_convert choices v of
             Some c \<Rightarrow> ([Prompt text dflt], Inr c, rest)
           | None \<Rightarrow>
               (case typer_prompt text choices dflt rest of
                  (evs, res, rest') \<Rightarrow> (Prompt text dflt # InvalidChoice v # evs, res, rest'))))"
  by pat_completeness auto
termination
  by (relation "measure (\<lambda>(text, choices, dflt, inp). length inp)")
     (auto dest: input_line_shorter)

declare typer_prompt.simps [simp del]

lemma typer_prompt_shorter:
  "typer_prompt msg choices dflt inp = (evs :: ('f, 'r) event list, Inr c, inp')
     \<Longrightarrow> length inp' < length inp"
proof (induction msg choices dflt inp arbitrary: evs rule: typer_prompt.induct)
  case (1 msg choices dflt inp)
  show ?case
  proof (cases "input_line inp")
    case None
    with "1.prems" show ?thesis by (simp add: typer_prompt.simps [of msg choices dflt inp])
  next
    case (Some lr)
    obtain line rest where lr: "lr = (line, rest)" by (cases lr)
    from Some lr have short: "length rest < length inp"
      by (simp add: input_line_shorter)
    define v where "v = (if line = [] then dflt else line)"
    show ?thesis
    proof (cases "Choice_convert choices v")
      case None
      obtain evs1 :: "('f, 'r) event list" and res1 rest1
        where rec: "typer_prompt msg choices dflt rest = (evs1, res1, rest1)"
        using prod_cases3 by blast
      from "1.prems" Some lr None rec have "res1 = Inr c" "rest1 = inp'"
        by (simp_all add: v_def typer_prompt.simps [of msg choices dflt inp])
      with rec have "typer_prompt msg choices dflt rest = (evs1, Inr c, inp')" by simp
      from "1.IH" [OF Some lr [symmetric] v_def None this] short show ?thesis by simp
    next
      case (Some c')
      with "1.prems" \<open>input_line inp = Some lr\<close> lr short show ?thesis
        by (simp add: v_def typer_prompt.simps [of msg choices dflt inp])
    qed
  qed
qed

subsection \<open>Lines 200 to 235: what follows the completion\<close>

text \<open>
  \<^verbatim>\<open>full_completion\<close> is assigned only under \<^verbatim>\<open>if chat_id:\<close>; \<open>None\<close> stands for the
  unassigned local, and reading it raises \<^verbatim>\<open>UnboundLocalError\<close>.
\<close>

definition run_command :: "string option \<Rightarrow> ('f, 'r) event list \<times> (error + unit)" where
  "run_command full_completion =
     (case full_completion of
        None \<Rightarrow> ([], Inl (UnboundLocalError ''full_completion''))
      | Some text \<Rightarrow> ([RunCommand text], Inr ()))"

definition copy_to_clipboard :: "string option \<Rightarrow> ('f, 'r) event list \<times> (error + unit)" where
  "copy_to_clipboard full_completion =
     (case full_completion of
        None \<Rightarrow> ([], Inl (UnboundLocalError ''full_completion''))
      | Some text \<Rightarrow> ([CopyToClipboard text], Inr ()))"

text \<open>Lines 201 to 207: the prompt of the code branch.\<close>

definition code_prompt :: "string \<Rightarrow> ('f, 'r) event list \<times> (error + string) \<times> string" where
  "code_prompt inp = typer_prompt ''[C]opy, [A]bort'' [''c'', ''a''] ''a'' inp"

text \<open>Lines 200 to 210, the body of \<^verbatim>\<open>if code:\<close>.\<close>

definition code_action ::
  "string option \<Rightarrow> string \<Rightarrow> ('f, 'r) event list \<times> (error + unit) \<times> string"
where
  "code_action full_completion inp =
     (case code_prompt inp of
        (evs, Inl e, inp') \<Rightarrow> (evs, Inl e, inp')
      | (evs, Inr option, inp') \<Rightarrow>
          if in_str option ''c'' then
            (case copy_to_clipboard full_completion of
               (evs1, Inl e) \<Rightarrow> (evs @ evs1, Inl e, inp')
             | (evs1, Inr u) \<Rightarrow>
                 (evs @ evs1 @ [Print ''Command copied to clipboard!''], Inr (), inp'))
          else (evs, Inr (), inp'))"

text \<open>Line 145: \<^verbatim>\<open>stdin_passed = not sys.stdin.isatty()\<close>.\<close>

definition stdin_passed :: "('f, 'r) env \<Rightarrow> bool" where
  "stdin_passed env = (\<not> isatty env)"

text \<open>
  Lines 213 to 219: the prompt of the shell loop. Its default answer is \<^verbatim>\<open>e\<close> when
  the configuration has \<^verbatim>\<open>DEFAULT_EXECUTE_SHELL_CMD\<close> equal to \<^verbatim>\<open>"true"\<close>, else \<^verbatim>\<open>a\<close>.
\<close>

definition shell_prompt ::
  "('f, 'r) env \<Rightarrow> string \<Rightarrow> ('f, 'r) event list \<times> (error + string) \<times> string"
where
  "shell_prompt env inp =
     typer_prompt ''[E]xecute, [C]opy, [D]escribe, [A]bort'' [''e'', ''d'', ''a'', ''y'', ''c'']
       (if default_execute_shell_cmd env = ''true'' then ''e'' else ''a'') inp"

text \<open>
  Lines 212 to 235, \<^verbatim>\<open>while shell and not stdin_passed:\<close>. \<^verbatim>\<open>continue\<close> is the
  recursive call; \<^verbatim>\<open>break\<close> and a false loop condition end the loop, and with it
  \<^verbatim>\<open>main\<close>.
\<close>

function shell_loop ::
  "('f, 'r) env \<Rightarrow> 'f args \<Rightarrow> string option \<Rightarrow> string \<Rightarrow> ('f, 'r) event list \<times> outcome"
where
  "shell_loop env a full_completion inp =
     (if shell a \<and> \<not> stdin_passed env then
        (case shell_prompt env inp of
           (evs, Inl e, inp') \<Rightarrow> (evs, Raised e)
         | (evs, Inr option, inp') \<Rightarrow>
             (case (if option = ''e'' \<or> option = ''y'' then run_command full_completion
                    else ([], Inr ())) of
                (evs1, Inl e) \<Rightarrow> (evs @ evs1, Raised e)
              | (evs1, Inr u) \<Rightarrow>
                  if in_str option ''c'' then
                    (case copy_to_clipboard full_completion of
                       (evs2, Inl e) \<Rightarrow> (evs @ evs1 @ evs2, Raised e)
                     | (evs2, Inr u') \<Rightarrow>
                         (evs @ evs1 @ evs2 @ [Print ''Command copied to clipboard!''], Returned))
                  else if option = ''d'' then
                    (case full_completion of
                       None \<Rightarrow> (evs @ evs1, Raised (UnboundLocalError ''full_completion''))
                     | Some text \<Rightarrow>
                         (case describe_handle env (get_role env DESCRIBE_SHELL) text (kwargs_of a) of
                            Inl e \<Rightarrow>
                              (evs @ evs1 @
                                 [DefaultHandle (get_role env DESCRIBE_SHELL) text (kwargs_of a)],
                               Raised e)
                          | Inr description \<Rightarrow>
                              after (evs @ evs1 @
                                       [DefaultHandle (get_role env DESCRIBE_SHELL) text (kwargs_of a)])
                                (shell_loop env a full_completion inp')))
                  else (evs @ evs1, Returned)))
      else ([], Returned))"
  by pat_completeness auto
termination
  by (relation "measure (\<lambda>(env, a, full_completion, inp). length inp)")
     (auto simp: shell_prompt_def dest: typer_prompt_shorter [OF sym])

declare shell_loop.simps [simp del]

text \<open>Lines 200 to 235.\<close>

definition actions ::
  "('f, 'r) env \<Rightarrow> 'f args \<Rightarrow> string option \<Rightarrow> string \<Rightarrow> ('f, 'r) event list \<times> outcome"
where
  "actions env a full_completion inp =
     (case (if code a then code_action full_completion inp else ([], Inr (), inp)) of
        (evs, Inl e, inp') \<Rightarrow> (evs, Raised e)
      | (evs, Inr u, inp') \<Rightarrow> after evs (shell_loop env a full_completion inp'))"

subsection \<open>Lines 187 to 197: the completion\<close>

definition complete ::
  "('f, 'r) env \<Rightarrow> 'f args \<Rightarrow> 'r \<Rightarrow> string option \<Rightarrow> string \<Rightarrow> ('f, 'r) event list \<times> outcome"
where
  "complete env a role_class prompt1 inp =
     (if chat_id a \<noteq> [] then
        (if falsy prompt1 then ([], Raised (MissingParameter ''PROMPT'' ''string''))
         else
           (case chat_handle env (chat_id a) role_class (or_empty prompt1) (kwargs_of a) of
              Inl e \<Rightarrow>
                ([ChatHandle (chat_id a) role_class (or_empty prompt1) (kwargs_of a)], Raised e)
            | Inr full_completion \<Rightarrow>
                after [ChatHandle (chat_id a) role_class (or_empty prompt1) (kwargs_of a)]
                  (actions env a (Some full_completion) inp)))
      else actions env a None inp)"

subsection \<open>Lines 168 to 185: REPL, printing and deleting a chat\<close>

definition dispatch ::
  "('f, 'r) env \<Rightarrow> 'f args \<Rightarrow> 'r \<Rightarrow> string option \<Rightarrow> string \<Rightarrow> ('f, 'r) event list \<times> outcome"
where
  "dispatch env a role_class prompt1 inp =
     (case (if repl a then
              (case repl_handle env (chat_id a) role_class prompt1 (kwargs_of a) inp of
                 (res, inp') \<Rightarrow>
                   ([ReplHandle (chat_id a) role_class prompt1 (kwargs_of a)], res, inp'))
            else ([], Inr (), inp)) of
        (evs, Inl e, inp') \<Rightarrow> (evs, Raised e)
      | (evs, Inr u, inp') \<Rightarrow>
          if print_chat a then (evs @ [ShowMessages (chat_id a)], Exited)
          else if delete_chat a then (evs @ [DeleteChat (chat_id a) role_class], Exited)
          else after evs (complete env a role_class prompt1 inp'))"

subsection \<open>Lines 145 to 166: standard input, validation, editor, role\<close>

definition conflict_message :: string where
  "conflict_message =
     ''Only one of --shell, --describe-shell, and --code options can be used at a time.''"

definition editor_message :: string where
  "editor_message = ''--editor option cannot be used with stdin input.''"

text \<open>
  Lines 147 and 148: piped input outside REPL mode is read to its end and put in front
  of the prompt argument. The result is the event, the prompt and the unread input.
\<close>

definition read_stdin ::
  "('f, 'r) env \<Rightarrow> 'f args \<Rightarrow> ('f, 'r) event list \<times> string option \<times> string"
where
  "read_stdin env a =
     (if stdin_passed env \<and> \<not> repl a then
        ([StdinRead (stdin env)],
         Some (stdin env @ [newline, newline] @ or_empty (prompt a)), [])
      else ([], prompt a, stdin env))"

text \<open>\<^verbatim>\<open>sum((shell, describe_shell, code))\<close>: the number of flags that are set.\<close>

definition flag_sum :: "'f args \<Rightarrow> nat" where
  "flag_sum a = of_bool (shell a) + of_bool (describe_shell a) + of_bool (code a)"

text \<open>Lines 159 and 160.\<close>

definition edit_prompt ::
  "('f, 'r) env \<Rightarrow> 'f args \<Rightarrow> string option \<Rightarrow> ('f, 'r) event list \<times> (error + string option)"
where
  "edit_prompt env a prompt0 =
     (if editor a then
        (case get_edited_prompt env of
           Inl e \<Rightarrow> ([GetEditedPrompt], Inl e)
         | Inr edited \<Rightarrow> ([GetEditedPrompt], Inr (Some edited)))
      else ([], Inr prompt0))"

text \<open>Lines 162 to 166. \<^verbatim>\<open>not role\<close> holds for \<^verbatim>\<open>None\<close> and for the empty string.\<close>

definition resolve_role :: "('f, 'r) env \<Rightarrow> 'f args \<Rightarrow> ('f, 'r) event list \<times> (error + 'r)" where
  "resolve_role env a =
     (if falsy (role a) then
        ([CheckGet (shell a) (describe_shell a) (code a)],
         Inr (get_role env (check_get (shell a) (describe_shell a) (code a))))
      else
        ([SystemRoleGet (or_empty (role a))],
         SystemRole_get (role_storage env) (or_empty (role a))))"

definition main :: "('f, 'r) env \<Rightarrow> 'f args \<Rightarrow> ('f, 'r) event list \<times> outcome" where
  "main env a =
     (case read_stdin env a of
        (evs0, prompt0, inp0) \<Rightarrow>
          after evs0
            (if 1 < flag_sum a then ([], Raised (BadArgumentUsage conflict_message))
             else if editor a \<and> stdin_passed env then
               ([], Raised (BadArgumentUsage editor_message))
             else
               (case edit_prompt env a prompt0 of
                  (evs1, Inl e) \<Rightarrow> (evs1, Raised e)
                | (evs1, Inr prompt1) \<Rightarrow>
                    after evs1
                      (case resolve_role env a of
                         (evs2, Inl e) \<Rightarrow> (evs2, Raised e)
                       | (evs2, Inr role_class) \<Rightarrow>
                           after evs2 (dispatch env a role_class prompt1 inp0)))))"

subsection \<open>Kinds of events\<close>

text \<open>The handler calls: each of them may reach the remote completion service.\<close>

fun remote_call :: "('f, 'r) event \<Rightarrow> bool" where
  "remote_call (ReplHandle c r p k) = True"
| "remote_call (ChatHandle c r p k) = True"
| "remote_call (DefaultHandle r p k) = True"
| "remote_call ev = False"

text \<open>The calls that may write the stored conversations or the cache.\<close>

fun persistence_mutation :: "('f, 'r) event \<Rightarrow> bool" where
  "persistence_mutation (ReplHandle c r p k) = True"
| "persistence_mutation (ChatHandle c r p k) = True"
| "persistence_mutation (DefaultHandle r p k) = True"
| "persistence_mutation (DeleteChat c r) = True"
| "persistence_mutation ev = False"

fun role_resolution :: "('f, 'r) event \<Rightarrow> bool" where
  "role_resolution (CheckGet s d c) = True"
| "role_resolution (SystemRoleGet n) = True"
| "role_resolution ev = False"

text \<open>What lines 200 to 235 can do.\<close>

fun interaction :: "('f, 'r) event \<Rightarrow> bool" where
  "interaction (Prompt t d) = True"
| "interaction (InvalidChoice v) = True"
| "interaction (CopyToClipboard t) = True"
| "interaction (Print t) = True"
| "interaction (RunCommand t) = True"
| "interaction (DefaultHandle r p k) = True"
| "interaction ev = False"

subsection \<open>The session store and the chat handler\<close>

datatype message_role = System | User | Assistant

datatype message = Message message_role string

type_synonym sessions = "string \<rightharpoonup> message list"

text \<open>
  Modelled from the spec: the session store behind the chat handler (outside \<^verbatim>\<open>app.py\<close>).
  Section 4.3 of the specification: reading a conversation that does not exist gives the
  empty sequence, a conversation is created by its first append, and deleting is
  idempotent.
\<close>

definition read_session :: "sessions \<Rightarrow> string \<Rightarrow> message list" where
  "read_session \<sigma> cid = (case \<sigma> cid of None \<Rightarrow> [] | Some ms \<Rightarrow> ms)"

definition append_session :: "sessions \<Rightarrow> string \<Rightarrow> message \<Rightarrow> sessions" where
  "append_session \<sigma> cid m = \<sigma>(cid \<mapsto> read_session \<sigma> cid @ [m])"

definition delete_session :: "sessions \<Rightarrow> string \<Rightarrow> sessions" where
  "delete_session \<sigma> cid = \<sigma>(cid := None)"

text \<open>
  Modelled from the spec: \<^verbatim>\<open>ChatHandler(chat_id, role).handle(prompt, ...)\<close>, called at
  line 190 and defined outside \<^verbatim>\<open>app.py\<close>. Section 4.3 of the specification: reading
  the conversation \<^verbatim>\<open>temp\<close> triggers its deletion before any new append. Section 4.4:
  the prior transcript is loaded, and after the call the user and the assistant message
  are appended; section 7: a failed call appends nothing. The result is the transcript
  found and the new store.
\<close>

definition ChatHandler_handle ::
  "string \<Rightarrow> string \<Rightarrow> error + string \<Rightarrow> sessions \<Rightarrow> message list \<times> sessions"
where
  "ChatHandler_handle cid p result \<sigma> =
     (let \<sigma>1 = (if cid = ''temp'' then delete_session \<sigma> ''temp'' else \<sigma>);
          prior = read_session \<sigma>1 cid
      in (prior,
          case result of
            Inl e \<Rightarrow> \<sigma>1
          | Inr completion \<Rightarrow>
              append_session (append_session \<sigma>1 cid (Message User p)) cid
                (Message Assistant completion)))"

text \<open>
  The stored conversations after a run of events, with the transcript each chat handler
  call found. The specification does not say what a REPL session leaves behind, so a
  run with a REPL call has no result here.
\<close>

fun run_sessions ::
  "('f, 'r) env \<Rightarrow> ('f, 'r) event list \<Rightarrow> sessions \<Rightarrow> (message list list \<times> sessions) option"
where
  "run_sessions env [] \<sigma> = Some ([], \<sigma>)"
| "run_sessions env (ChatHandle cid r p k # evs) \<sigma> =
     (case ChatHandler_handle cid p (chat_handle env cid r p k) \<sigma> of
        (prior, \<sigma>') \<Rightarrow>
          (case run_sessions env evs \<sigma>' of
             None \<Rightarrow> None
           | Some (priors, \<tau>) \<Rightarrow> Some (prior # priors, \<tau>)))"
| "run_sessions env (DeleteChat cid r # evs) \<sigma> = run_sessions env evs (delete_session \<sigma> cid)"
| "run_sessions env (ReplHandle cid r p k # evs) \<sigma> = None"
| "run_sessions env (ev # evs) \<sigma> = run_sessions env evs \<sigma>"

fun store_neutral :: "('f, 'r) event \<Rightarrow> bool" where
  "store_neutral (ChatHandle cid r p k) = False"
| "store_neutral (DeleteChat cid r) = False"
| "store_neutral (ReplHandle cid r p k) = False"
| "store_neutral ev = True"

subsection \<open>A sample invocation\<close>

text \<open>
  A terminal session with one stored role; the completion of every prompt is
  \<^verbatim>\<open>ls -la\<close>. The theorems below are instantiated at variants of it.
\<close>

definition sample_env :: "(nat, string) env" where
  "sample_env =
     \<lparr>isatty = True, stdin = [],
      default_execute_shell_cmd = ''false'',
      get_edited_prompt = Inr [],
      role_storage = [''custom-role'' \<mapsto> ''custom''],
      get_role = (\<lambda>d. case d of DEFAULT \<Rightarrow> ''default'' | SHELL \<Rightarrow> ''shell''
                    | DESCRIBE_SHELL \<Rightarrow> ''describe'' | CODE \<Rightarrow> ''code''),
      repl_handle = (\<lambda>c r p k inp. (Inl Abort, [])),
      chat_handle = (\<lambda>c r p k. Inr ''ls -la''),
      describe_handle = (\<lambda>r p k. Inr ''lists files'')\<rparr>"

definition sample_args :: "nat args" where
  "sample_args =
     \<lparr>prompt = Some ''list files'', model = ''gpt'', temperature = 0, top_probability = 1,
      shell = False, describe_shell = False, code = False, editor = False, cache = True,
      chat_id = ''temp'', repl = False, print_chat = False, delete_chat = False,
      role = None\<rparr>"

section \<open>Properties\<close>

subsection \<open>Unfolding and evaluation\<close>

lemmas prompt_eval =
  shell_prompt_def code_prompt_def typer_prompt.simps input_line_def newline_def
  Choice_convert_def lower_def lower_char_def Let_def

lemma in_str_c: "in_str s ''c'' \<longleftrightarrow> s = [] \<or> s = ''c''"
  by (auto simp: in_str_def sublist_Cons_right prefix_Cons)

lemmas main_eval =
  main_def read_stdin_def stdin_passed_def flag_sum_def edit_prompt_def resolve_role_def
  falsy_def or_empty_def check_get_def SystemRole_get_def dispatch_def complete_def
  actions_def code_action_def after_def kwargs_of_def in_str_c run_command_def
  copy_to_clipboard_def

subsection \<open>The prompt\<close>

lemma typer_prompt_events:
  "typer_prompt msg choices dflt inp = (evs :: ('f, 'r) event list, res, inp')
     \<Longrightarrow> \<forall>ev \<in> set evs. ev = Prompt msg dflt \<or> (\<exists>v. ev = InvalidChoice v)"
proof (induction msg choices dflt inp arbitrary: evs res inp' rule: typer_prompt.induct)
  case (1 msg choices dflt inp)
  from "1.prems" show ?case
    apply (subst (asm) typer_prompt.simps)
    apply (auto split: option.splits prod.splits simp: Let_def dest!: "1.IH" [rotated -1])
    done
qed

lemma typer_prompt_choice:
  "typer_prompt msg choices dflt inp = (evs :: ('f, 'r) event list, Inr c, inp')
     \<Longrightarrow> c \<in> set choices"
proof (induction msg choices dflt inp arbitrary: evs rule: typer_prompt.induct)
  case (1 msg choices dflt inp)
  from "1.prems" show ?case
    apply (subst (asm) typer_prompt.simps)
    apply (auto split: option.splits prod.splits
        simp: Let_def Choice_convert_def find_Some_iff dest!: "1.IH" [rotated -1])
    done
qed

lemma typer_prompt_Abort:
  "typer_prompt msg choices dflt inp = (evs :: ('f, 'r) event list, Inl e, inp')
     \<Longrightarrow> e = Abort"
proof (induction msg choices dflt inp arbitrary: evs rule: typer_prompt.induct)
  case (1 msg choices dflt inp)
  from "1.prems" show ?case
    apply (subst (asm) typer_prompt.simps)
    apply (auto split: option.splits prod.splits simp: Let_def dest!: "1.IH" [rotated -1])
    done
qed

lemma typer_prompt_starts:
  "\<exists>evs'. fst (typer_prompt msg choices dflt inp) = (Prompt msg dflt :: ('f, 'r) event) # evs'"
  by (subst typer_prompt.simps) (auto split: option.splits prod.splits simp: Let_def)

lemma shell_option:
  assumes "shell_prompt env inp = (evs, Inr option, inp')"
  shows "option = ''e'' \<or> option = ''d'' \<or> option = ''a'' \<or> option = ''y'' \<or> option = ''c''"
  using typer_prompt_choice [OF assms [unfolded shell_prompt_def]] by simp

subsection \<open>The shell loop\<close>

lemma shell_loop_prefix:
  assumes "shell a" and "\<not> stdin_passed env"
    and sp: "shell_prompt env inp = (evs, res, inp')"
  shows "\<exists>evs'. fst (shell_loop env a fc inp) = evs @ evs'"
proof (cases res)
  case (Inl e)
  with assms show ?thesis by (subst shell_loop.simps) simp
next
  case (Inr option)
  obtain evs1 r1 where run: "(if option = ''e'' \<or> option = ''y'' then run_command fc
                    else ([], Inr ())) = (evs1 :: ('a, 'b) event list, r1)"
    by (cases "(if option = ''e'' \<or> option = ''y'' then run_command fc
                    else ([], Inr ())) :: ('a, 'b) event list \<times> (error + unit)")
  obtain evs2 r2 where cp: "copy_to_clipboard fc = (evs2 :: ('a, 'b) event list, r2)"
    by (cases "copy_to_clipboard fc :: ('a, 'b) event list \<times> (error + unit)")
  show ?thesis
    apply (subst shell_loop.simps)
    apply (simp only: assms Inr run cp simp_thms if_True prod.case sum.case)
    apply (cases r1; cases r2; cases fc; simp add: after_def split: sum.splits)
    done
qed

lemma shell_prompt_starts:
  "\<exists>evs'. fst (shell_prompt env inp) =
            (Prompt ''[E]xecute, [C]opy, [D]escribe, [A]bort''
              (if default_execute_shell_cmd env = ''true'' then ''e'' else ''a'')
               :: ('f, 'r) event) # evs'"
  unfolding shell_prompt_def by (rule typer_prompt_starts)

lemma shell_loop_start:
  assumes "shell a" and "\<not> stdin_passed env"
  shows "\<exists>evs'. fst (shell_loop env a fc inp) =
            Prompt ''[E]xecute, [C]opy, [D]escribe, [A]bort''
              (if default_execute_shell_cmd env = ''true'' then ''e'' else ''a'') # evs'"
proof -
  obtain evs res inp' where sp: "shell_prompt env inp = (evs :: ('a, 'b) event list, res, inp')"
    using prod_cases3 by blast
  from shell_prompt_starts [of env inp] obtain evs0
    where "fst (shell_prompt env inp) =
             Prompt ''[E]xecute, [C]opy, [D]escribe, [A]bort''
               (if default_execute_shell_cmd env = ''true'' then ''e'' else ''a'') # evs0"
    by blast
  with sp have evs: "evs = Prompt ''[E]xecute, [C]opy, [D]escribe, [A]bort''
               (if default_execute_shell_cmd env = ''true'' then ''e'' else ''a'') # evs0"
    by (simp only: fst_conv)
  from shell_loop_prefix [OF assms sp, of fc] obtain evs'
    where "fst (shell_loop env a fc inp) = evs @ evs'" by blast
  with evs show ?thesis by (simp only: append_Cons) blast
qed

lemma shell_loop_step:
  assumes "shell a" and "\<not> stdin_passed env"
    and "shell_prompt env inp = (evs, Inr option, inp')"
  shows "shell_loop env a (Some text) inp =
     (if option = ''e'' \<or> option = ''y'' then (evs @ [RunCommand text], Returned)
      else if option = ''c'' then
        (evs @ [CopyToClipboard text, Print ''Command copied to clipboard!''], Returned)
      else if option = ''d'' then
        (case describe_handle env (get_role env DESCRIBE_SHELL) text (kwargs_of a) of
           Inl e \<Rightarrow>
             (evs @ [DefaultHandle (get_role env DESCRIBE_SHELL) text (kwargs_of a)], Raised e)
         | Inr description \<Rightarrow>
             after (evs @ [DefaultHandle (get_role env DESCRIBE_SHELL) text (kwargs_of a)])
               (shell_loop env a (Some text) inp'))
      else (evs, Returned))"
proof -
  note opt = shell_option [OF assms(3)]
  show ?thesis
    apply (subst shell_loop.simps)
    apply (simp only: assms simp_thms if_True prod.case sum.case)
    using opt
    apply (elim disjE)
    apply (simp_all add: in_str_c run_command_def copy_to_clipboard_def split: sum.splits)
    done
qed

lemma shell_loop_off:
  assumes "\<not> (shell a \<and> \<not> stdin_passed env)"
  shows "shell_loop env a fc inp = ([], Returned)"
  by (subst shell_loop.simps) (simp only: assms if_False)

lemma shell_loop_unfold:
  assumes "shell a" and "\<not> stdin_passed env"
    and sp: "shell_prompt env inp = (evs, res, inp')"
  shows "(\<exists>acts. fst (shell_loop env a fc inp) = evs @ acts \<and> (\<forall>ev \<in> set acts. interaction ev))
       \<or> (\<exists>c t. res = Inr c \<and>
            fst (shell_loop env a fc inp) =
              evs @ DefaultHandle (get_role env DESCRIBE_SHELL) t (kwargs_of a)
                # fst (shell_loop env a fc inp'))"
proof (cases res)
  case (Inl e)
  with assms show ?thesis by (subst shell_loop.simps) simp
next
  case (Inr option)
  obtain evs1 r1 where run: "(if option = ''e'' \<or> option = ''y'' then run_command fc
                    else ([], Inr ())) = (evs1 :: ('a, 'b) event list, r1)"
    by (cases "(if option = ''e'' \<or> option = ''y'' then run_command fc
                    else ([], Inr ())) :: ('a, 'b) event list \<times> (error + unit)")
  then have i1: "\<forall>ev \<in> set evs1. interaction ev"
    by (auto simp: run_command_def split: if_splits option.splits)
  obtain evs2 r2 where cp: "copy_to_clipboard fc = (evs2 :: ('a, 'b) event list, r2)"
    by (cases "copy_to_clipboard fc :: ('a, 'b) event list \<times> (error + unit)")
  then have i2: "\<forall>ev \<in> set evs2. interaction ev"
    by (auto simp: copy_to_clipboard_def split: option.splits)
  have none: "fc = None \<Longrightarrow> evs1 = []"
    using run by (auto simp: run_command_def split: if_splits)
  have d: "option = ''d'' \<Longrightarrow> evs1 = []"
    using run by simp
  show ?thesis
    apply (simp only: shell_loop.simps [of env a fc inp])
    apply (simp only: assms Inr run cp simp_thms if_True prod.case sum.case)
    using i1 i2 d
    apply (cases r1; cases r2; cases fc; auto simp: after_def split: sum.splits)
    done
qed

lemma shell_loop_events:
  "\<forall>ev \<in> set (fst (shell_loop env a fc inp)). interaction ev"
proof (induction inp rule: length_induct)
  case (1 inp)
  show ?case
  proof (cases "shell a \<and> \<not> stdin_passed env")
    case False
    then show ?thesis by (simp add: shell_loop_off)
  next
    case True
    obtain evs res inp' where sp: "shell_prompt env inp = (evs :: ('a, 'b) event list, res, inp')"
      using prod_cases3 by blast
    from typer_prompt_events [OF sp [unfolded shell_prompt_def]]
    have ievs: "\<forall>ev \<in> set evs. interaction ev" by auto
    from True have sh: "shell a" and tty: "\<not> stdin_passed env" by simp_all
    from shell_loop_unfold [OF sh tty sp, of fc] show ?thesis
    proof (elim disjE exE conjE)
      fix acts
      assume "fst (shell_loop env a fc inp) = evs @ acts" "\<forall>ev \<in> set acts. interaction ev"
      with ievs show ?thesis by auto
    next
      fix c t
      assume r: "res = Inr c"
        and f: "fst (shell_loop env a fc inp) =
              evs @ DefaultHandle (get_role env DESCRIBE_SHELL) t (kwargs_of a)
                # fst (shell_loop env a fc inp')"
      from sp r have "length inp' < length inp"
        by (auto simp: shell_prompt_def dest: typer_prompt_shorter)
      with "1.IH" have "\<forall>ev \<in> set (fst (shell_loop env a fc inp')). interaction ev" by blast
      with f ievs show ?thesis by auto
    qed
  qed
qed

subsection \<open>The events of each stage\<close>

lemma code_action_events:
  "\<forall>ev \<in> set (fst (code_action fc inp)). interaction ev"
proof -
  obtain evs res inp' where cp: "code_prompt inp = (evs :: ('a, 'b) event list, res, inp')"
    using prod_cases3 by blast
  from typer_prompt_events [OF cp [unfolded code_prompt_def]]
  have "\<forall>ev \<in> set evs. interaction ev" by auto
  with cp show ?thesis
    by (auto simp: code_action_def copy_to_clipboard_def split: sum.splits option.splits)
qed

lemma actions_events:
  "\<forall>ev \<in> set (fst (actions env a fc inp)). interaction ev"
proof -
  obtain evs res inp' where ca:
    "(if code a then code_action fc inp else ([], Inr (), inp)) =
       (evs :: ('a, 'b) event list, res, inp')"
    using prod_cases3 by blast
  have "\<forall>ev \<in> set evs. interaction ev"
    using ca code_action_events [of fc inp, where ?'a = 'a and ?'b = 'b]
    by (auto split: if_splits)
  with ca shell_loop_events [of env a fc inp'] show ?thesis
    by (cases res) (auto simp: actions_def after_def)
qed

lemma complete_events:
  "ev \<in> set (fst (complete env a r p1 inp))
     \<Longrightarrow> ev = ChatHandle (chat_id a) r (or_empty p1) (kwargs_of a) \<or> interaction ev"
  using actions_events [of env a _ inp]
  by (auto simp: complete_def after_def split: if_splits sum.splits)

lemma dispatch_events:
  "ev \<in> set (fst (dispatch env a r p1 inp))
     \<Longrightarrow> (repl a \<and> ev = ReplHandle (chat_id a) r p1 (kwargs_of a))
       \<or> ev = ShowMessages (chat_id a) \<or> ev = DeleteChat (chat_id a) r
       \<or> ev = ChatHandle (chat_id a) r (or_empty p1) (kwargs_of a) \<or> interaction ev"
  by (auto simp: dispatch_def after_def split: if_splits sum.splits prod.splits
      dest: complete_events)

lemma eq_set_fst: "p = (x, y) \<Longrightarrow> ev \<in> set x \<Longrightarrow> ev \<in> set (fst p)"
  by simp

lemma resolve_role_events:
  "ev \<in> set (fst (resolve_role env a)) \<Longrightarrow> role_resolution ev"
  by (auto simp: resolve_role_def split: if_splits)

subsection \<open>The session store\<close>

lemma run_sessions_neutral:
  "\<forall>ev \<in> set evs. store_neutral ev \<Longrightarrow> run_sessions env evs \<sigma> = Some ([], \<sigma>)"
proof (induction evs)
  case Nil
  show ?case by simp
next
  case (Cons ev evs)
  then show ?case by (cases ev) simp_all
qed

lemma run_sessions_neutral_prefix:
  "\<forall>ev \<in> set pre. store_neutral ev \<Longrightarrow> run_sessions env (pre @ evs) \<sigma> = run_sessions env evs \<sigma>"
proof (induction pre)
  case Nil
  show ?case by simp
next
  case (Cons ev pre)
  then show ?case by (cases ev) simp_all
qed

lemma interaction_neutral: "interaction ev \<Longrightarrow> store_neutral ev"
  by (cases ev) simp_all

lemma role_resolution_neutral: "role_resolution ev \<Longrightarrow> store_neutral ev"
  by (cases ev) simp_all

lemma complete_shape:
  assumes "chat_id a \<noteq> []"
  shows "fst (complete env a r p1 inp) = []
       \<or> (\<exists>rest. fst (complete env a r p1 inp) =
             ChatHandle (chat_id a) r (or_empty p1) (kwargs_of a) # rest \<and>
             (\<forall>ev \<in> set rest. interaction ev))"
  using assms actions_events [of env a _ inp]
  by (auto simp: complete_def after_def split: sum.splits)

lemma dispatch_plain:
  assumes "\<not> repl a" and "\<not> print_chat a" and "\<not> delete_chat a"
  shows "dispatch env a r p1 inp = complete env a r p1 inp"
  using assms by (simp add: dispatch_def after_def)

lemma main_shape:
  "\<exists>pre. (\<forall>ev \<in> set pre. store_neutral ev) \<and>
     (fst (main env a) = pre \<or>
      (\<exists>r p1 inp. fst (main env a) = pre @ fst (dispatch env a r p1 inp)))"
proof -
  obtain evs0 prompt0 inp0 where rd: "read_stdin env a = (evs0, prompt0, inp0)"
    using prod_cases3 by blast
  then have n0: "\<forall>ev \<in> set evs0. store_neutral ev"
    by (auto simp: read_stdin_def split: if_splits)
  obtain evs1 res1 where ed: "edit_prompt env a prompt0 = (evs1, res1)"
    by (cases "edit_prompt env a prompt0")
  then have n1: "\<forall>ev \<in> set evs1. store_neutral ev"
    by (auto simp: edit_prompt_def split: if_splits sum.splits)
  obtain evs2 res2 where rr: "resolve_role env a = (evs2, res2)"
    by (cases "resolve_role env a")
  then have n2: "\<forall>ev \<in> set evs2. store_neutral ev"
    using resolve_role_events [of _ env a] role_resolution_neutral by fastforce
  consider (early) "1 < flag_sum a \<or> (editor a \<and> stdin_passed env)"
    | (ed_fail) e where "\<not> (1 < flag_sum a \<or> (editor a \<and> stdin_passed env))" "res1 = Inl e"
    | (rr_fail) p1 e where "\<not> (1 < flag_sum a \<or> (editor a \<and> stdin_passed env))"
        "res1 = Inr p1" "res2 = Inl e"
    | (ok) p1 r where "\<not> (1 < flag_sum a \<or> (editor a \<and> stdin_passed env))"
        "res1 = Inr p1" "res2 = Inr r"
    by (cases res1; cases res2) auto
  then show ?thesis
  proof cases
    case early
    then have "fst (main env a) = evs0"
      using rd by (auto simp: main_def after_def)
    with n0 show ?thesis by blast
  next
    case ed_fail
    then have "fst (main env a) = evs0 @ evs1"
      using rd ed by (auto simp: main_def after_def)
    with n0 n1 show ?thesis by (intro exI [of _ "evs0 @ evs1"]) auto
  next
    case rr_fail
    then have "fst (main env a) = evs0 @ evs1 @ evs2"
      using rd ed rr by (auto simp: main_def after_def)
    with n0 n1 n2 show ?thesis by (intro exI [of _ "evs0 @ evs1 @ evs2"]) auto
  next
    case ok
    then have "fst (main env a) = (evs0 @ evs1 @ evs2) @ fst (dispatch env a r p1 inp0)"
      using rd ed rr by (auto simp: main_def after_def)
    then have ex: "\<exists>r p1 inp. fst (main env a) = (evs0 @ evs1 @ evs2) @ fst (dispatch env a r p1 inp)"
      by blast
    from n0 n1 n2 have "\<forall>ev \<in> set (evs0 @ evs1 @ evs2). store_neutral ev" by auto
    with ex show ?thesis by blast
  qed
qed

subsection \<open>Piped input never runs a command\<close>

lemma code_action_no_run: "RunCommand t \<notin> set (fst (code_action fc inp))"
proof -
  obtain evs res inp' where cp: "code_prompt inp = (evs :: ('a, 'b) event list, res, inp')"
    using prod_cases3 by blast
  from typer_prompt_events [OF cp [unfolded code_prompt_def]]
  have "RunCommand t \<notin> set evs" by auto
  with cp show ?thesis
    by (auto simp: code_action_def copy_to_clipboard_def split: sum.splits option.splits)
qed

lemma actions_piped:
  assumes "stdin_passed env"
  shows "RunCommand t \<notin> set (fst (actions env a fc inp))"
proof -
  have off: "shell_loop env a fc inp' = ([], Returned)" for inp'
    using assms by (simp add: shell_loop_off)
  show ?thesis
    using code_action_no_run [of t fc inp, where ?'a = 'a and ?'b = 'b]
    by (auto simp: actions_def after_def off split: prod.splits sum.splits if_splits)
qed

lemma dispatch_piped:
  assumes "stdin_passed env"
  shows "RunCommand t \<notin> set (fst (dispatch env a r p1 inp))"
  using actions_piped [OF assms, of t a]
  by (auto simp: dispatch_def complete_def after_def split: prod.splits sum.splits if_splits)

lemma piped_input_never_runs_command:
  assumes "\<not> isatty env"
  shows "RunCommand t \<notin> set (fst (main env a))"
proof -
  from assms have sp: "stdin_passed env" by (simp add: stdin_passed_def)
  show ?thesis
    using dispatch_piped [OF sp, of t a] resolve_role_events [of "RunCommand t" env a]
    by (auto simp: main_def read_stdin_def edit_prompt_def after_def
        split: prod.splits sum.splits if_splits)
qed

section \<open>The claims\<close>

subsection \<open>C1: piped input and the action prompts\<close>

text \<open>
  Claim C1: when input is piped (standard input is no terminal), the action prompts
  after the completion are skipped for the shell shape and for the code shape alike.

  The shell loop is guarded by \<^verbatim>\<open>not stdin_passed\<close>, so with piped input no command
  is ever run (\<open>piped_input_never_runs_command\<close>); the code branch has no such guard.
  With \<^verbatim>\<open>--code\<close> and piped input the prompt \<^verbatim>\<open>[C]opy, [A]bort\<close> is shown all the
  same, finds standard input at its end and raises \<^verbatim>\<open>Abort\<close>.
\<close>

theorem code_prompt_on_piped_stdin:
  "main (sample_env\<lparr>isatty := False, stdin := ''cat notes.txt''\<rparr>)
        (sample_args\<lparr>prompt := Some ''explain'', code := True\<rparr>) =
     ([StdinRead ''cat notes.txt'',
       CheckGet False False True,
       ChatHandle ''temp'' ''code'' (''cat notes.txt'' @ [newline, newline] @ ''explain'')
         (kwargs_of sample_args),
       Prompt ''[C]opy, [A]bort'' ''a''], Raised Abort)"
  by (simp add: main_eval shell_loop.simps prompt_eval sample_env_def sample_args_def)

subsection \<open>C2: conflicting mode flags\<close>

text \<open>
  Claim C2: with more than one of \<^verbatim>\<open>shell\<close>, \<^verbatim>\<open>describe_shell\<close> and \<^verbatim>\<open>code\<close> set,
  \<^verbatim>\<open>main\<close> raises the usage error about conflicting options, and no handler is called:
  the only thing done before is reading piped input.
\<close>

theorem conflicting_modes_fail:
  assumes "(shell a \<and> describe_shell a) \<or> (shell a \<and> code a) \<or> (describe_shell a \<and> code a)"
  shows "main env a =
           (if \<not> isatty env \<and> \<not> repl a then [StdinRead (stdin env)] else [],
            Raised (BadArgumentUsage conflict_message))
         \<and> \<not> list_ex remote_call (fst (main env a))"
  using assms by (auto simp: main_def read_stdin_def stdin_passed_def flag_sum_def after_def)

theorem conflicting_modes_fail_witness:
  "main sample_env (sample_args\<lparr>shell := True, code := True\<rparr>) =
     ([], Raised (BadArgumentUsage conflict_message))
   \<and> \<not> list_ex remote_call (fst (main sample_env (sample_args\<lparr>shell := True, code := True\<rparr>)))"
  using conflicting_modes_fail [of "sample_args\<lparr>shell := True, code := True\<rparr>" sample_env]
  by (simp add: sample_env_def)

subsection \<open>C3: validation before the core logic\<close>

text \<open>
  Claim C3 says that a missing prompt, like conflicting flags, is reported before any
  role resolution, remote call or change of stored data, whatever the invocation. The
  prompt is checked at line 188, after lines 162 to 185. Without a prompt argument:
  \<^item> the role has been resolved before the usage error is raised;
  \<^item> with \<^verbatim>\<open>--print-chat\<close> or \<^verbatim>\<open>--delete-chat\<close> the chat is shown or deleted and
    the program exits, with no error;
  \<^item> in REPL mode the REPL handler is called first, and the error follows when that
    call returns;
  \<^item> with the empty chat id nothing is checked and \<^verbatim>\<open>main\<close> returns;
  \<^item> with piped input the prompt checked is the piped text and two newlines, which is
    never empty, so the chat handler is called even on an empty pipe.
\<close>

theorem missing_prompt_counterexample:
  "main sample_env (sample_args\<lparr>prompt := None\<rparr>) =
     ([CheckGet False False False], Raised (MissingParameter ''PROMPT'' ''string''))
   \<and> main sample_env (sample_args\<lparr>prompt := None, print_chat := True\<rparr>) =
     ([CheckGet False False False, ShowMessages ''temp''], Exited)
   \<and> main sample_env (sample_args\<lparr>prompt := None, delete_chat := True\<rparr>) =
     ([CheckGet False False False, DeleteChat ''temp'' ''default''], Exited)
   \<and> main (sample_env\<lparr>repl_handle := (\<lambda>c r p k inp. (Inr (), inp))\<rparr>)
          (sample_args\<lparr>prompt := None, repl := True\<rparr>) =
     ([CheckGet False False False,
       ReplHandle ''temp'' ''default'' None (kwargs_of sample_args)],
      Raised (MissingParameter ''PROMPT'' ''string''))
   \<and> main sample_env (sample_args\<lparr>prompt := None, chat_id := []\<rparr>) =
     ([CheckGet False False False], Returned)
   \<and> main (sample_env\<lparr>isatty := False\<rparr>) (sample_args\<lparr>prompt := None\<rparr>) =
     ([StdinRead [], CheckGet False False False,
       ChatHandle ''temp'' ''default'' [newline, newline] (kwargs_of sample_args)], Returned)"
  by (simp add: main_eval shell_loop.simps sample_env_def sample_args_def)

text \<open>
  Claim C3, amended: conflicting mode flags raise the usage error before the editor, role
  resolution and every handler call, with nothing done but the read of piped input. The
  prompt is checked after role resolution. When validation, the editor and role
  resolution have passed and, in REPL mode, the REPL handler has returned, then
  \<^item> with print-chat the chat is shown, else with delete-chat it is deleted, and the
    program exits without a look at the prompt;
  \<^item> else, with a non-empty chat id and a prompt that is absent or empty once piped
    input and the editor are taken in, \<^verbatim>\<open>MissingParameter\<close> is raised; before it there
    is no chat handler call, no deletion and no action prompt, and no handler call at
    all except the one of the REPL.
\<close>

theorem validation_errors:
  "(1 < flag_sum a \<longrightarrow>
      main env a = (fst (read_stdin env a), Raised (BadArgumentUsage conflict_message)) \<and>
      (\<forall>ev \<in> set (fst (main env a)). ev = StdinRead (stdin env)))
   \<and> (flag_sum a \<le> 1 \<and> \<not> (editor a \<and> stdin_passed env) \<and>
        read_stdin env a = (evs0, p0, inp0) \<and> edit_prompt env a p0 = (evs1, Inr p1) \<and>
        resolve_role env a = (evs2, Inr r) \<and>
        (repl a \<longrightarrow> fst (repl_handle env (chat_id a) r p1 (kwargs_of a) inp0) = Inr ())
      \<longrightarrow> \<not> list_ex remote_call (evs0 @ evs1 @ evs2) \<and>
          \<not> list_ex persistence_mutation (evs0 @ evs1 @ evs2) \<and>
          (print_chat a \<longrightarrow>
             main env a =
               (evs0 @ evs1 @ evs2 @
                  (if repl a then [ReplHandle (chat_id a) r p1 (kwargs_of a)] else []) @
                  [ShowMessages (chat_id a)], Exited)) \<and>
          (\<not> print_chat a \<and> delete_chat a \<longrightarrow>
             main env a =
               (evs0 @ evs1 @ evs2 @
                  (if repl a then [ReplHandle (chat_id a) r p1 (kwargs_of a)] else []) @
                  [DeleteChat (chat_id a) r], Exited)) \<and>
          (\<not> print_chat a \<and> \<not> delete_chat a \<and> chat_id a \<noteq> [] \<and> falsy p1 \<longrightarrow>
             main env a =
               (evs0 @ evs1 @ evs2 @
                  (if repl a then [ReplHandle (chat_id a) r p1 (kwargs_of a)] else []),
                Raised (MissingParameter ''PROMPT'' ''string''))))"
proof (rule conjI; rule impI)
  assume "1 < flag_sum a"
  then show "main env a = (fst (read_stdin env a), Raised (BadArgumentUsage conflict_message)) \<and>
      (\<forall>ev \<in> set (fst (main env a)). ev = StdinRead (stdin env))"
    by (auto simp: main_def read_stdin_def after_def)
next
  assume h: "flag_sum a \<le> 1 \<and> \<not> (editor a \<and> stdin_passed env) \<and>
        read_stdin env a = (evs0, p0, inp0) \<and> edit_prompt env a p0 = (evs1, Inr p1) \<and>
        resolve_role env a = (evs2, Inr r) \<and>
        (repl a \<longrightarrow> fst (repl_handle env (chat_id a) r p1 (kwargs_of a) inp0) = Inr ())"
  then have m: "main env a = after (evs0 @ evs1 @ evs2) (dispatch env a r p1 inp0)"
    by (auto simp: main_def after_def)
  obtain res inp1 where rh: "repl_handle env (chat_id a) r p1 (kwargs_of a) inp0 = (res, inp1)"
    by (cases "repl_handle env (chat_id a) r p1 (kwargs_of a) inp0")
  with h have ok: "repl a \<longrightarrow> res = Inr ()" by simp
  have d1: "print_chat a \<longrightarrow> dispatch env a r p1 inp0 =
      ((if repl a then [ReplHandle (chat_id a) r p1 (kwargs_of a)] else []) @
         [ShowMessages (chat_id a)], Exited)"
    using rh ok by (simp add: dispatch_def)
  have d2: "\<not> print_chat a \<and> delete_chat a \<longrightarrow> dispatch env a r p1 inp0 =
      ((if repl a then [ReplHandle (chat_id a) r p1 (kwargs_of a)] else []) @
         [DeleteChat (chat_id a) r], Exited)"
    using rh ok by (simp add: dispatch_def)
  have d3: "\<not> print_chat a \<and> \<not> delete_chat a \<and> chat_id a \<noteq> [] \<and> falsy p1 \<longrightarrow>
      dispatch env a r p1 inp0 =
        (if repl a then [ReplHandle (chat_id a) r p1 (kwargs_of a)] else [],
         Raised (MissingParameter ''PROMPT'' ''string''))"
    using rh ok by (simp add: dispatch_def complete_def after_def)
  from h have e0: "evs0 = [] \<or> evs0 = [StdinRead (stdin env)]"
    by (auto simp: read_stdin_def split: if_splits)
  from h have e1: "evs1 = [] \<or> evs1 = [GetEditedPrompt]"
    by (auto simp: edit_prompt_def split: if_splits sum.splits)
  from h have e2: "evs2 = [CheckGet (shell a) (describe_shell a) (code a)]
                  \<or> evs2 = [SystemRoleGet (or_empty (role a))]"
    by (auto simp: resolve_role_def split: if_splits)
  from e0 e1 e2 have n: "\<not> list_ex remote_call (evs0 @ evs1 @ evs2)"
    "\<not> list_ex persistence_mutation (evs0 @ evs1 @ evs2)"
    by auto
  from n m d1 d2 d3 show "\<not> list_ex remote_call (evs0 @ evs1 @ evs2) \<and>
          \<not> list_ex persistence_mutation (evs0 @ evs1 @ evs2) \<and>
          (print_chat a \<longrightarrow>
             main env a =
               (evs0 @ evs1 @ evs2 @
                  (if repl a then [ReplHandle (chat_id a) r p1 (kwargs_of a)] else []) @
                  [ShowMessages (chat_id a)], Exited)) \<and>
          (\<not> print_chat a \<and> delete_chat a \<longrightarrow>
             main env a =
               (evs0 @ evs1 @ evs2 @
                  (if repl a then [ReplHandle (chat_id a) r p1 (kwargs_of a)] else []) @
                  [DeleteChat (chat_id a) r], Exited)) \<and>
          (\<not> print_chat a \<and> \<not> delete_chat a \<and> chat_id a \<noteq> [] \<and> falsy p1 \<longrightarrow>
             main env a =
               (evs0 @ evs1 @ evs2 @
                  (if repl a then [ReplHandle (chat_id a) r p1 (kwargs_of a)] else []),
                Raised (MissingParameter ''PROMPT'' ''string'')))"
    by (simp add: after_def)
qed

theorem validation_errors_witness:
  "main sample_env (sample_args\<lparr>shell := True, describe_shell := True\<rparr>) =
     ([], Raised (BadArgumentUsage conflict_message))
   \<and> main sample_env (sample_args\<lparr>prompt := None, role := Some ''custom-role''\<rparr>) =
     ([SystemRoleGet ''custom-role''], Raised (MissingParameter ''PROMPT'' ''string''))
   \<and> main sample_env (sample_args\<lparr>editor := True\<rparr>) =
     ([GetEditedPrompt, CheckGet False False False],
      Raised (MissingParameter ''PROMPT'' ''string''))
   \<and> main (sample_env\<lparr>repl_handle := (\<lambda>c r p k inp. (Inr (), inp))\<rparr>)
          (sample_args\<lparr>prompt := None, repl := True\<rparr>) =
     ([CheckGet False False False,
       ReplHandle ''temp'' ''default'' None (kwargs_of sample_args)],
      Raised (MissingParameter ''PROMPT'' ''string''))
   \<and> main sample_env (sample_args\<lparr>prompt := None, print_chat := True\<rparr>) =
     ([CheckGet False False False, ShowMessages ''temp''], Exited)
   \<and> main sample_env (sample_args\<lparr>prompt := None, delete_chat := True\<rparr>) =
     ([CheckGet False False False, DeleteChat ''temp'' ''default''], Exited)"
  using
    validation_errors [where env = sample_env
      and a = "sample_args\<lparr>shell := True, describe_shell := True\<rparr>"]
    validation_errors [where env = sample_env
      and a = "sample_args\<lparr>prompt := None, role := Some ''custom-role''\<rparr>"
      and ?evs0.0 = "[]" and ?p0.0 = None and ?inp0.0 = "[]"
      and ?evs1.0 = "[]" and ?p1.0 = None and ?evs2.0 = "[SystemRoleGet ''custom-role'']"
      and r = "''custom''"]
    validation_errors [where env = sample_env and a = "sample_args\<lparr>editor := True\<rparr>"
      and ?evs0.0 = "[]" and ?p0.0 = "Some ''list files''" and ?inp0.0 = "[]"
      and ?evs1.0 = "[GetEditedPrompt]" and ?p1.0 = "Some []"
      and ?evs2.0 = "[CheckGet False False False]" and r = "''default''"]
    validation_errors [where env = "sample_env\<lparr>repl_handle := (\<lambda>c r p k inp. (Inr (), inp))\<rparr>"
      and a = "sample_args\<lparr>prompt := None, repl := True\<rparr>"
      and ?evs0.0 = "[]" and ?p0.0 = None and ?inp0.0 = "[]"
      and ?evs1.0 = "[]" and ?p1.0 = None
      and ?evs2.0 = "[CheckGet False False False]" and r = "''default''"]
    validation_errors [where env = sample_env
      and a = "sample_args\<lparr>prompt := None, print_chat := True\<rparr>"
      and ?evs0.0 = "[]" and ?p0.0 = None and ?inp0.0 = "[]"
      and ?evs1.0 = "[]" and ?p1.0 = None
      and ?evs2.0 = "[CheckGet False False False]" and r = "''default''"]
    validation_errors [where env = sample_env
      and a = "sample_args\<lparr>prompt := None, delete_chat := True\<rparr>"
      and ?evs0.0 = "[]" and ?p0.0 = None and ?inp0.0 = "[]"
      and ?evs1.0 = "[]" and ?p1.0 = None
      and ?evs2.0 = "[CheckGet False False False]" and r = "''default''"]
  by (simp add: sample_env_def sample_args_def flag_sum_def resolve_role_def falsy_def
      check_get_def or_empty_def edit_prompt_def read_stdin_def stdin_passed_def
      SystemRole_get_def kwargs_of_def)

subsection \<open>C4: the explicit role and the flags\<close>

text \<open>
  Claim C4 says that whenever a role name is supplied it is looked up. Line 164 tests
  \<^verbatim>\<open>not role\<close>, which also holds for the empty name: with \<^verbatim>\<open>--shell --role ""\<close> the
  role comes from the flags and no lookup is made.
\<close>

theorem empty_role_name_counterexample:
  "main (sample_env\<lparr>stdin := ''a'' @ [newline]\<rparr>)
        (sample_args\<lparr>shell := True, role := Some []\<rparr>) =
     ([CheckGet True False False,
       ChatHandle ''temp'' ''shell'' ''list files'' (kwargs_of sample_args),
       Prompt ''[E]xecute, [C]opy, [D]escribe, [A]bort'' ''a''], Returned)"
  by (simp add: main_eval shell_loop.simps prompt_eval sample_env_def sample_args_def)

text \<open>
  Claim C4, amended: when validation and the editor have passed, a non-empty role name is
  looked up by name and the role found is the one handed on, whatever the flags (an
  unknown name is an error); with no role name, or the empty one, the role is derived
  from the flags, the default role if none is set.
\<close>

theorem explicit_role_overrides_flags:
  assumes "flag_sum a \<le> 1" and "\<not> (editor a \<and> stdin_passed env)"
    and "read_stdin env a = (evs0, prompt0, inp0)"
    and "edit_prompt env a prompt0 = (evs1, Inr prompt1)"
  shows "(role a = Some name \<and> name \<noteq> [] \<and> role_storage env name = Some r \<longrightarrow>
            main env a =
              after (evs0 @ evs1 @ [SystemRoleGet name]) (dispatch env a r prompt1 inp0))
       \<and> (role a = Some name \<and> name \<noteq> [] \<and> role_storage env name = None \<longrightarrow>
            main env a = (evs0 @ evs1 @ [SystemRoleGet name], Raised (UnknownRoleError name)))
       \<and> (role a = None \<or> role a = Some [] \<longrightarrow>
            main env a =
              after (evs0 @ evs1 @ [CheckGet (shell a) (describe_shell a) (code a)])
                (dispatch env a
                   (get_role env
                      (if shell a then SHELL else if describe_shell a then DESCRIBE_SHELL
                       else if code a then CODE else DEFAULT))
                   prompt1 inp0))"
  using assms
  by (auto simp: main_def after_def resolve_role_def falsy_def or_empty_def SystemRole_get_def
      check_get_def)

theorem explicit_role_overrides_flags_witness:
  "main sample_env (sample_args\<lparr>shell := True, role := Some ''custom-role''\<rparr>) =
     after [SystemRoleGet ''custom-role'']
       (dispatch sample_env (sample_args\<lparr>shell := True, role := Some ''custom-role''\<rparr>)
          ''custom'' (Some ''list files'') [])
   \<and> main sample_env (sample_args\<lparr>role := Some ''nobody''\<rparr>) =
       ([SystemRoleGet ''nobody''], Raised (UnknownRoleError ''nobody''))
   \<and> main sample_env sample_args =
       after [CheckGet False False False]
         (dispatch sample_env sample_args ''default'' (Some ''list files'') [])"
proof -
  have h: "\<not> (editor (sample_args\<lparr>shell := True, role := Some ''custom-role''\<rparr>) \<and>
              stdin_passed sample_env)"
    "\<not> (editor (sample_args\<lparr>role := Some ''nobody''\<rparr>) \<and> stdin_passed sample_env)"
    "\<not> (editor sample_args \<and> stdin_passed sample_env)"
    by (simp_all add: sample_args_def)
  have f: "flag_sum (sample_args\<lparr>shell := True, role := Some ''custom-role''\<rparr>) \<le> 1"
    "flag_sum (sample_args\<lparr>role := Some ''nobody''\<rparr>) \<le> 1"
    "flag_sum sample_args \<le> 1"
    by (simp_all add: sample_args_def flag_sum_def)
  have rd: "read_stdin sample_env (sample_args\<lparr>shell := True, role := Some ''custom-role''\<rparr>) =
              ([], Some ''list files'', [])"
    "read_stdin sample_env (sample_args\<lparr>role := Some ''nobody''\<rparr>) =
              ([], Some ''list files'', [])"
    "read_stdin sample_env sample_args = ([], Some ''list files'', [])"
    by (simp_all add: read_stdin_def stdin_passed_def sample_env_def sample_args_def)
  have ed: "edit_prompt sample_env (sample_args\<lparr>shell := True, role := Some ''custom-role''\<rparr>)
              (Some ''list files'') = ([], Inr (Some ''list files''))"
    "edit_prompt sample_env (sample_args\<lparr>role := Some ''nobody''\<rparr>)
              (Some ''list files'') = ([], Inr (Some ''list files''))"
    "edit_prompt sample_env sample_args (Some ''list files'') = ([], Inr (Some ''list files''))"
    by (simp_all add: edit_prompt_def sample_args_def)
  show ?thesis
    using explicit_role_overrides_flags [OF f(1) h(1) rd(1) ed(1), of "''custom-role''" "''custom''"]
      explicit_role_overrides_flags [OF f(2) h(2) rd(2) ed(2), of "''nobody''"]
      explicit_role_overrides_flags [OF f(3) h(3) rd(3) ed(3)]
    by (simp add: sample_env_def sample_args_def)
qed

subsection \<open>C5: Describe in the shell loop\<close>

text \<open>
  Claim C5: in the shell loop, the answer \<^verbatim>\<open>d\<close> runs the one-shot handler with the
  describe-shell role on the completion just produced, then prompts again with the same
  completion pending; every other answer ends the loop: \<^verbatim>\<open>e\<close> and \<^verbatim>\<open>y\<close> after running
  the command, \<^verbatim>\<open>c\<close> after copying it, \<^verbatim>\<open>a\<close> at once.
\<close>

theorem describe_loops:
  assumes "shell a" and "\<not> stdin_passed env"
    and "shell_prompt env inp = (evs, Inr option, inp')"
  shows "(option = ''d'' \<and>
            describe_handle env (get_role env DESCRIBE_SHELL) text (kwargs_of a) = Inr description
          \<longrightarrow> shell_loop env a (Some text) inp =
                after (evs @ [DefaultHandle (get_role env DESCRIBE_SHELL) text (kwargs_of a)])
                  (shell_loop env a (Some text) inp')
              \<and> (\<exists>evs'. fst (shell_loop env a (Some text) inp') =
                    Prompt ''[E]xecute, [C]opy, [D]escribe, [A]bort''
                      (if default_execute_shell_cmd env = ''true'' then ''e'' else ''a'') # evs'))
       \<and> (option \<noteq> ''d'' \<longrightarrow>
            shell_loop env a (Some text) inp =
              (evs @ (if option = ''e'' \<or> option = ''y'' then [RunCommand text]
                      else if option = ''c''
                        then [CopyToClipboard text, Print ''Command copied to clipboard!'']
                      else []),
               Returned))"
  using shell_loop_step [OF assms, of "text"] shell_loop_start [OF assms(1,2), of "Some text" inp']
  by simp

theorem describe_loops_witness:
  "shell_loop sample_env (sample_args\<lparr>shell := True\<rparr>) (Some ''ls -la'')
       (''d'' @ [newline] @ ''e'' @ [newline]) =
     after [Prompt ''[E]xecute, [C]opy, [D]escribe, [A]bort'' ''a'',
            DefaultHandle ''describe'' ''ls -la'' (kwargs_of (sample_args\<lparr>shell := True\<rparr>))]
       (shell_loop sample_env (sample_args\<lparr>shell := True\<rparr>) (Some ''ls -la'')
          (''e'' @ [newline]))
   \<and> shell_loop sample_env (sample_args\<lparr>shell := True\<rparr>) (Some ''ls -la'') (''e'' @ [newline]) =
       ([Prompt ''[E]xecute, [C]opy, [D]escribe, [A]bort'' ''a'', RunCommand ''ls -la''], Returned)"
proof -
  have s: "shell (sample_args\<lparr>shell := True\<rparr>)" by simp
  have t: "\<not> stdin_passed sample_env" by (simp add: stdin_passed_def sample_env_def)
  have p1: "shell_prompt sample_env (''d'' @ [newline] @ ''e'' @ [newline]) =
      ([Prompt ''[E]xecute, [C]opy, [D]escribe, [A]bort'' ''a''], Inr ''d'', ''e'' @ [newline])"
    by (simp add: prompt_eval sample_env_def)
  have p2: "shell_prompt sample_env (''e'' @ [newline]) =
      ([Prompt ''[E]xecute, [C]opy, [D]escribe, [A]bort'' ''a''], Inr ''e'', [])"
    by (simp add: prompt_eval sample_env_def)
  show ?thesis
    using describe_loops [OF s t p1, of "''ls -la''" "''lists files''"]
      describe_loops [OF s t p2, of "''ls -la''" "''lists files''"]
    by (simp add: sample_env_def)
qed

subsection \<open>C6: Copy in the shell loop\<close>

text \<open>
  Claim C6 says that after Copy the shell loop prompts again. It does not: line 235 is
  reached after the copy, so with the input lines \<^verbatim>\<open>c\<close> and \<^verbatim>\<open>e\<close> there is one prompt,
  the completion is copied, and nothing is executed.
\<close>

theorem copy_returns_to_prompt_counterexample:
  "main (sample_env\<lparr>stdin := ''c'' @ [newline] @ ''e'' @ [newline]\<rparr>)
        (sample_args\<lparr>shell := True\<rparr>) =
     ([CheckGet True False False,
       ChatHandle ''temp'' ''shell'' ''list files'' (kwargs_of sample_args),
       Prompt ''[E]xecute, [C]opy, [D]escribe, [A]bort'' ''a'',
       CopyToClipboard ''ls -la'',
       Print ''Command copied to clipboard!''], Returned)"
  by (simp add: main_eval shell_loop.simps prompt_eval sample_env_def sample_args_def)

text \<open>
  Claim C6, amended: in the shell loop the answer \<^verbatim>\<open>c\<close> puts the completion on the
  clipboard, prints the confirmation and ends the loop.
\<close>

theorem copy_ends_loop:
  assumes "shell a" and "\<not> stdin_passed env"
    and "shell_prompt env inp = (evs, Inr ''c'', inp')"
  shows "shell_loop env a (Some text) inp =
           (evs @ [CopyToClipboard text, Print ''Command copied to clipboard!''], Returned)"
  using shell_loop_step [OF assms, of "text"] by simp

theorem copy_ends_loop_witness:
  "shell_loop sample_env (sample_args\<lparr>shell := True\<rparr>) (Some ''ls -la'')
       (''c'' @ [newline] @ ''e'' @ [newline]) =
     ([Prompt ''[E]xecute, [C]opy, [D]escribe, [A]bort'' ''a'', CopyToClipboard ''ls -la'',
       Print ''Command copied to clipboard!''], Returned)"
proof -
  have s: "shell (sample_args\<lparr>shell := True\<rparr>)" by simp
  have t: "\<not> stdin_passed sample_env" by (simp add: stdin_passed_def sample_env_def)
  have p1: "shell_prompt sample_env (''c'' @ [newline] @ ''e'' @ [newline]) =
      ([Prompt ''[E]xecute, [C]opy, [D]escribe, [A]bort'' ''a''], Inr ''c'', ''e'' @ [newline])"
    by (simp add: prompt_eval sample_env_def)
  show ?thesis
    using copy_ends_loop [OF s t p1, of "''ls -la''"] by simp
qed

subsection \<open>C7: the actions of code mode\<close>

text \<open>
  Claim C7: after a completion in code mode (lines 200 to 210) the prompt accepts
  \<^verbatim>\<open>c\<close> and \<^verbatim>\<open>a\<close> only. \<^verbatim>\<open>c\<close> copies the completion and prints the confirmation,
  \<^verbatim>\<open>a\<close> does nothing more, end of input aborts, and any other answer, \<^verbatim>\<open>e\<close> and
  \<^verbatim>\<open>d\<close> among them, is reported as invalid and the prompt is shown again.
\<close>

theorem code_mode_actions:
  assumes "code a" and "flag_sum a \<le> 1" and "code_prompt inp = (evs, res, inp')"
  shows "(res = Inr option \<longrightarrow>
            (option = ''c'' \<or> option = ''a'') \<and>
            actions env a (Some text) inp =
              (evs @ (if option = ''c''
                      then [CopyToClipboard text, Print ''Command copied to clipboard!'']
                      else []), Returned))
       \<and> (res = Inl e \<longrightarrow> actions env a (Some text) inp = (evs, Raised Abort))
       \<and> (\<forall>ev \<in> set evs. ev = Prompt ''[C]opy, [A]bort'' ''a'' \<or> (\<exists>v. ev = InvalidChoice v))
       \<and> (input_line inp = Some (v, rest) \<and> v \<noteq> [] \<and> lower v \<noteq> ''c'' \<and> lower v \<noteq> ''a''
            \<longrightarrow> (\<exists>evs'. evs = Prompt ''[C]opy, [A]bort'' ''a'' # InvalidChoice v # evs' \<and>
                    code_prompt rest = (evs', res, inp')))"
proof -
  from assms(1,2) have nsh: "\<not> (shell a \<and> \<not> stdin_passed env)"
    by (auto simp: flag_sum_def split: if_splits)
  note off = shell_loop_off [OF nsh]
  have 1: "res = Inr option \<longrightarrow> (option = ''c'' \<or> option = ''a'')"
    using typer_prompt_choice [of "''[C]opy, [A]bort''" "[''c'', ''a'']" "''a''" inp evs option inp']
      assms(3) by (auto simp: code_prompt_def)
  have 2: "res = Inr option \<longrightarrow> actions env a (Some text) inp =
              (evs @ (if option = ''c''
                      then [CopyToClipboard text, Print ''Command copied to clipboard!'']
                      else []), Returned)"
    using 1 assms(1,3)
    by (auto simp: actions_def code_action_def off after_def in_str_c copy_to_clipboard_def)
  have 3: "res = Inl e \<longrightarrow> actions env a (Some text) inp = (evs, Raised Abort)"
    using typer_prompt_Abort [of "''[C]opy, [A]bort''" "[''c'', ''a'']" "''a''" inp evs e inp']
      assms(1,3)
    by (auto simp: actions_def code_action_def code_prompt_def)
  have 4: "\<forall>ev \<in> set evs. ev = Prompt ''[C]opy, [A]bort'' ''a'' \<or> (\<exists>v. ev = InvalidChoice v)"
    using typer_prompt_events [OF assms(3) [unfolded code_prompt_def]] .
  have 5: "input_line inp = Some (v, rest) \<and> v \<noteq> [] \<and> lower v \<noteq> ''c'' \<and> lower v \<noteq> ''a''
            \<longrightarrow> (\<exists>evs'. evs = Prompt ''[C]opy, [A]bort'' ''a'' # InvalidChoice v # evs' \<and>
                    code_prompt rest = (evs', res, inp'))"
  proof (intro impI, elim conjE)
    assume il: "input_line inp = Some (v, rest)" and ne: "v \<noteq> []"
      and nc: "lower v \<noteq> ''c''" and na: "lower v \<noteq> ''a''"
    have conv: "Choice_convert [''c'', ''a''] v = None"
      using nc na by (auto simp: Choice_convert_def lower_def lower_char_def)
    show "\<exists>evs'. evs = Prompt ''[C]opy, [A]bort'' ''a'' # InvalidChoice v # evs' \<and>
                    code_prompt rest = (evs', res, inp')"
      using assms(3) il ne conv
      apply (simp only: code_prompt_def)
      apply (subst (asm) typer_prompt.simps)
      apply (auto split: prod.splits)
      done
  qed
  from 1 2 3 4 5 show ?thesis by blast
qed

theorem code_mode_actions_witness:
  "actions sample_env (sample_args\<lparr>code := True\<rparr>) (Some ''print(1)'')
       (''e'' @ [newline] @ ''D'' @ [newline] @ ''C'' @ [newline]) =
     ([Prompt ''[C]opy, [A]bort'' ''a'', InvalidChoice ''e'',
       Prompt ''[C]opy, [A]bort'' ''a'', InvalidChoice ''D'',
       Prompt ''[C]opy, [A]bort'' ''a'',
       CopyToClipboard ''print(1)'', Print ''Command copied to clipboard!''], Returned)"
proof -
  have c: "code (sample_args\<lparr>code := True\<rparr>)" by simp
  have f: "flag_sum (sample_args\<lparr>code := True\<rparr>) \<le> 1"
    by (simp add: flag_sum_def sample_args_def)
  have p: "code_prompt (''e'' @ [newline] @ ''D'' @ [newline] @ ''C'' @ [newline]) =
     ([Prompt ''[C]opy, [A]bort'' ''a'', InvalidChoice ''e'',
       Prompt ''[C]opy, [A]bort'' ''a'', InvalidChoice ''D'',
       Prompt ''[C]opy, [A]bort'' ''a''], Inr ''c'', [])"
    by (simp add: prompt_eval)
  show ?thesis
    using code_mode_actions [OF c f p, of "''c''" sample_env "''print(1)''"] by simp
qed

subsection \<open>C8: the conversation \<^verbatim>\<open>temp\<close> is reset\<close>

text \<open>
  Claim C8: on the default path (no REPL, no print-chat, no delete-chat) with the chat
  id \<^verbatim>\<open>temp\<close>, whatever an earlier invocation left in \<^verbatim>\<open>temp\<close> is deleted before the
  new exchange is appended: the chat handler finds an empty transcript, and after a
  successful call \<^verbatim>\<open>temp\<close> holds the new exchange and nothing else.
\<close>

theorem temp_conversation_reset:
  assumes "\<not> repl a" and "\<not> print_chat a" and "\<not> delete_chat a" and "chat_id a = ''temp''"
  shows "\<exists>priors \<sigma>'.
           run_sessions env (fst (main env a)) \<sigma> = Some (priors, \<sigma>') \<and>
           (\<forall>prior \<in> set priors. prior = []) \<and>
           (ChatHandle c r p k \<in> set (fst (main env a)) \<longrightarrow>
              c = ''temp'' \<and> priors = [[]] \<and>
              (\<forall>completion. chat_handle env c r p k = Inr completion \<longrightarrow>
                 read_session \<sigma>' ''temp'' = [Message User p, Message Assistant completion]))"
proof -
  from main_shape [of env a] obtain pre
    where pre: "\<forall>ev \<in> set pre. store_neutral ev"
      and shape: "fst (main env a) = pre \<or>
        (\<exists>r p1 inp. fst (main env a) = pre @ fst (dispatch env a r p1 inp))"
    by blast
  from shape show ?thesis
  proof (elim disjE exE)
    assume m: "fst (main env a) = pre"
    with pre have "run_sessions env (fst (main env a)) \<sigma> = Some ([], \<sigma>)"
      by (simp add: run_sessions_neutral)
    moreover from m pre have "ChatHandle c r p k \<notin> set (fst (main env a))" by auto
    ultimately show ?thesis by simp
  next
    fix r1 p1 inp
    assume m: "fst (main env a) = pre @ fst (dispatch env a r1 p1 inp)"
    have d: "dispatch env a r1 p1 inp = complete env a r1 p1 inp"
      using assms by (simp add: dispatch_plain)
    from assms(4) have ne: "chat_id a \<noteq> []" by simp
    from complete_shape [OF ne, of env r1 p1 inp] show ?thesis
    proof (elim disjE exE conjE)
      assume e: "fst (complete env a r1 p1 inp) = []"
      with m d pre have "run_sessions env (fst (main env a)) \<sigma> = Some ([], \<sigma>)"
        by (simp add: run_sessions_neutral)
      moreover from m d e pre have "ChatHandle c r p k \<notin> set (fst (main env a))" by auto
      ultimately show ?thesis by simp
    next
      fix rest
      assume c: "fst (complete env a r1 p1 inp) =
                   ChatHandle (chat_id a) r1 (or_empty p1) (kwargs_of a) # rest"
        and rest: "\<forall>ev \<in> set rest. interaction ev"
      from rest have nrest: "\<forall>ev \<in> set rest. store_neutral ev"
        using interaction_neutral by blast
      have run: "run_sessions env (fst (main env a)) \<sigma> =
          Some ([fst (ChatHandler_handle ''temp'' (or_empty p1)
                   (chat_handle env ''temp'' r1 (or_empty p1) (kwargs_of a)) \<sigma>)],
                snd (ChatHandler_handle ''temp'' (or_empty p1)
                   (chat_handle env ''temp'' r1 (or_empty p1) (kwargs_of a)) \<sigma>))"
        using m d c pre nrest assms(4)
        by (simp add: run_sessions_neutral_prefix run_sessions_neutral split: prod.splits)
      have prior: "fst (ChatHandler_handle ''temp'' (or_empty p1)
                   (chat_handle env ''temp'' r1 (or_empty p1) (kwargs_of a)) \<sigma>) = []"
        by (simp add: ChatHandler_handle_def read_session_def delete_session_def Let_def)
      have mem: "ChatHandle c r p k \<in> set (fst (main env a)) \<Longrightarrow>
                   c = ''temp'' \<and> r = r1 \<and> p = or_empty p1 \<and> k = kwargs_of a"
        using m d c pre rest assms(4) by auto
      have final: "chat_handle env ''temp'' r1 (or_empty p1) (kwargs_of a) = Inr completion \<Longrightarrow>
          read_session (snd (ChatHandler_handle ''temp'' (or_empty p1)
                   (chat_handle env ''temp'' r1 (or_empty p1) (kwargs_of a)) \<sigma>)) ''temp'' =
            [Message User (or_empty p1), Message Assistant completion]" for completion
        by (simp add: ChatHandler_handle_def read_session_def delete_session_def
            append_session_def Let_def)
      show ?thesis
        using run prior mem final by auto
    qed
  qed
qed

theorem temp_conversation_reset_witness:
  "\<exists>priors \<sigma>'.
     run_sessions sample_env (fst (main sample_env sample_args))
       [''temp'' \<mapsto> [Message User ''old question'', Message Assistant ''old answer'']] =
       Some (priors, \<sigma>') \<and>
     priors = [[]] \<and>
     read_session \<sigma>' ''temp'' = [Message User ''list files'', Message Assistant ''ls -la'']"
proof -
  have m: "main sample_env sample_args =
     ([CheckGet False False False,
       ChatHandle ''temp'' ''default'' ''list files'' (kwargs_of sample_args)], Returned)"
    by (simp add: main_eval shell_loop.simps sample_env_def sample_args_def)
  have h: "\<not> repl sample_args" "\<not> print_chat sample_args" "\<not> delete_chat sample_args"
    "chat_id sample_args = ''temp''"
    by (simp_all add: sample_args_def)
  have mem: "ChatHandle ''temp'' ''default'' ''list files'' (kwargs_of sample_args)
               \<in> set (fst (main sample_env sample_args))"
    by (simp add: m)
  have ch: "chat_handle sample_env ''temp'' ''default'' ''list files'' (kwargs_of sample_args) =
              Inr ''ls -la''"
    by (simp add: sample_env_def)
  from temp_conversation_reset [OF h, where env = sample_env and c = "''temp''"
      and r = "''default''" and p = "''list files''" and k = "kwargs_of sample_args"
      and \<sigma> = "[''temp'' \<mapsto> [Message User ''old question'', Message Assistant ''old answer'']]"]
    mem ch
  show ?thesis
    by blast
qed

subsection \<open>C9: piped input and the prompt\<close>

text \<open>
  Claim C9: with piped input outside REPL mode, the prompt given to the chat handler is
  the piped text, two newlines, and the prompt argument (empty if absent); when role
  resolution succeeds and the chat is neither printed nor deleted, the handler is called
  with it. In REPL mode the pipe is not read by \<^verbatim>\<open>main\<close> and the REPL handler gets the
  prompt argument as it is.
\<close>

theorem piped_stdin_prompt:
  "(\<not> isatty env \<and> \<not> repl a \<and> ChatHandle c r p k \<in> set (fst (main env a))
      \<longrightarrow> p = stdin env @ [newline, newline] @ or_empty (prompt a))
   \<and> (\<not> isatty env \<and> \<not> repl a \<and> flag_sum a \<le> 1 \<and> \<not> editor a \<and>
        resolve_role env a = (evs2, Inr r') \<and> \<not> print_chat a \<and> \<not> delete_chat a \<and>
        chat_id a \<noteq> []
      \<longrightarrow> ChatHandle (chat_id a) r' (stdin env @ [newline, newline] @ or_empty (prompt a))
             (kwargs_of a) \<in> set (fst (main env a)))
   \<and> (\<not> isatty env \<and> repl a \<and> ReplHandle c r q k \<in> set (fst (main env a))
      \<longrightarrow> q = prompt a)
   \<and> (\<not> isatty env \<and> repl a \<and> flag_sum a \<le> 1 \<and> \<not> editor a \<and>
        resolve_role env a = (evs2, Inr r')
      \<longrightarrow> ReplHandle (chat_id a) r' (prompt a) (kwargs_of a) \<in> set (fst (main env a)) \<and>
          StdinRead s \<notin> set (fst (main env a)))"
proof (intro conjI impI; elim conjE)
  assume "\<not> isatty env" "\<not> repl a" "ChatHandle c r p k \<in> set (fst (main env a))"
  then show "p = stdin env @ [newline, newline] @ or_empty (prompt a)"
    by (auto simp: main_def read_stdin_def stdin_passed_def edit_prompt_def after_def or_empty_def
        split: if_splits sum.splits prod.splits
        dest!: resolve_role_events [OF eq_set_fst] dispatch_events)
next
  assume "\<not> isatty env" "\<not> repl a" "flag_sum a \<le> 1" "\<not> editor a"
    "resolve_role env a = (evs2, Inr r')" "\<not> print_chat a" "\<not> delete_chat a" "chat_id a \<noteq> []"
  then show "ChatHandle (chat_id a) r' (stdin env @ [newline, newline] @ or_empty (prompt a))
             (kwargs_of a) \<in> set (fst (main env a))"
    by (auto simp: main_def read_stdin_def stdin_passed_def edit_prompt_def after_def
        dispatch_def complete_def falsy_def or_empty_def
        split: if_splits sum.splits prod.splits option.splits)
next
  assume "\<not> isatty env" "repl a" "ReplHandle c r q k \<in> set (fst (main env a))"
  then show "q = prompt a"
    by (auto simp: main_def read_stdin_def stdin_passed_def edit_prompt_def after_def
        split: if_splits sum.splits prod.splits
        dest!: resolve_role_events [OF eq_set_fst] dispatch_events)
next
  assume "\<not> isatty env" "repl a" "flag_sum a \<le> 1" "\<not> editor a"
    "resolve_role env a = (evs2, Inr r')"
  then show "ReplHandle (chat_id a) r' (prompt a) (kwargs_of a) \<in> set (fst (main env a))"
    by (auto simp: main_def read_stdin_def stdin_passed_def edit_prompt_def after_def
        dispatch_def split: if_splits sum.splits prod.splits)
next
  assume "\<not> isatty env" "repl a" "flag_sum a \<le> 1" "\<not> editor a"
    "resolve_role env a = (evs2, Inr r')"
  then show "StdinRead s \<notin> set (fst (main env a))"
    using resolve_role_events [of "StdinRead s" env a]
      dispatch_events [of "StdinRead s" env a r' "prompt a" "stdin env"]
    by (auto simp: main_def read_stdin_def stdin_passed_def edit_prompt_def after_def)
qed

theorem piped_stdin_prompt_witness:
  "ChatHandle ''temp'' ''default'' (''notes'' @ [newline, newline] @ ''list files'')
       (kwargs_of sample_args)
     \<in> set (fst (main (sample_env\<lparr>isatty := False, stdin := ''notes''\<rparr>) sample_args))
   \<and> ReplHandle ''temp'' ''default'' (Some ''list files'') (kwargs_of sample_args)
     \<in> set (fst (main (sample_env\<lparr>isatty := False, stdin := ''notes''\<rparr>)
                    (sample_args\<lparr>repl := True\<rparr>)))"
  using
    piped_stdin_prompt [where env = "sample_env\<lparr>isatty := False, stdin := ''notes''\<rparr>"
      and a = sample_args and ?evs2.0 = "[CheckGet False False False]" and r' = "''default''"]
    piped_stdin_prompt [where env = "sample_env\<lparr>isatty := False, stdin := ''notes''\<rparr>"
      and a = "sample_args\<lparr>repl := True\<rparr>" and ?evs2.0 = "[CheckGet False False False]"
      and r' = "''default''"]
  by (simp add: sample_env_def sample_args_def flag_sum_def resolve_role_def falsy_def
      check_get_def or_empty_def kwargs_of_def)

subsection \<open>C10: the editor and piped input\<close>

text \<open>
  Claim C10: with \<^verbatim>\<open>--editor\<close> and piped input \<^verbatim>\<open>main\<close> raises a usage error (the
  one about conflicting flags if they conflict as well) right after reading the pipe:
  the editor is not opened, no role is resolved and no handler is called.
\<close>

theorem editor_with_piped_stdin_fails:
  assumes "editor a" and "\<not> isatty env"
  shows "main env a =
           (if repl a then [] else [StdinRead (stdin env)],
            Raised (BadArgumentUsage
              (if 1 < flag_sum a then conflict_message else editor_message)))
         \<and> GetEditedPrompt \<notin> set (fst (main env a))
         \<and> \<not> list_ex role_resolution (fst (main env a))
         \<and> \<not> list_ex remote_call (fst (main env a))"
  using assms by (auto simp: main_def read_stdin_def stdin_passed_def after_def)

theorem editor_with_piped_stdin_fails_witness:
  "main (sample_env\<lparr>isatty := False, stdin := ''notes''\<rparr>) (sample_args\<lparr>editor := True\<rparr>) =
     ([StdinRead ''notes''], Raised (BadArgumentUsage editor_message))"
  using editor_with_piped_stdin_fails
    [of "sample_args\<lparr>editor := True\<rparr>" "sample_env\<lparr>isatty := False, stdin := ''notes''\<rparr>"]
  by (simp add: sample_args_def flag_sum_def)

end
